theory Spec2Isabelle
  imports Complex_Main
begin

section \<open>The drift engine of CoastGuard Lite\<close>

text \<open>
  The engine (server/drift-engine.ts) is embedded function by function. Its numbers are
  IEEE doubles; here they are real numbers, so every arithmetic step is exact: rounding,
  overflow, NaN and the infinities are outside this development. The loop counters, which
  start at 0 or 1 and go up by one, are natural numbers; the bounds \<open>simulationHours\<close>
  and \<open>numPaths\<close> they are compared with are numbers like any other in the source, so
  real here. The specification types both as integers, and the theorems are about runs
  whose bounds are natural numbers; one lemma below runs the loops with bounds that are not
  whole. \<open>numPaths\<close> is always passed (the source defaults it to 100).
\<close>

subsection \<open>Data\<close>

definition R :: real where
  "R = 6371"

record DriftPoint =
  lat :: real
  lng :: real

record HeatmapPoint = DriftPoint +
  intensity :: real

record DriftSimulationResult =
  predictedPoints :: "DriftPoint list"
  heatmapPoints :: "HeatmapPoint list"
  driftPaths :: "DriftPoint list list"

record MarineWeatherData =
  windSpeed :: real
  windDirection :: real
  waveHeight :: real
  currentSpeed :: real
  currentDirection :: real

subsection \<open>Drift kinematics\<close>

text \<open>
  The only divisor that is not a constant is the cosine of the latitude. Over the reals it
  is zero at 90 degrees, where HOL's division returns 0; the double cosine is not zero there.
\<close>

definition calculateDrift ::
  "real \<Rightarrow> real \<Rightarrow> real \<Rightarrow> real \<Rightarrow> real \<Rightarrow> real \<Rightarrow> real \<Rightarrow> DriftPoint" where
  "calculateDrift lat' lng' windSpeed' windDirection' currentSpeed' currentDirection' hours =
     (let windSpeedMs = windSpeed' / 3.6;
          windDriftFactor = 0.035;
          windDriftSpeed = windSpeedMs * windDriftFactor;
          windAngle = (windDirection' * pi) / 180;
          currentAngle = (currentDirection' * pi) / 180;
          windDriftX = windDriftSpeed * sin windAngle;
          windDriftY = windDriftSpeed * cos windAngle;
          currentX = currentSpeed' * sin currentAngle;
          currentY = currentSpeed' * cos currentAngle;
          totalVelocityX = windDriftX + currentX;
          totalVelocityY = windDriftY + currentY;
          distanceX = totalVelocityX * hours * 3600 / 1000;
          distanceY = totalVelocityY * hours * 3600 / 1000;
          latChange = (distanceY / R) * (180 / pi);
          lngChange = (distanceX / R) * (180 / pi) / cos ((lat' * pi) / 180)
      in \<lparr>lat = lat' + latChange, lng = lng' + lngChange\<rparr>)"

subsection \<open>The random source\<close>

text \<open>
  \<open>Math.random()\<close> is the only effect of the engine. A run is given the sequence of
  values its successive calls return, \<open>u 0\<close>, \<open>u 1\<close>, ...; the state threaded through
  the code is the number of calls made so far. Each value lies in \<open>[0, 1)\<close>; the theorems
  that need this say so.
\<close>

type_synonym random = "nat \<Rightarrow> real"

definition randomVariation :: "random \<Rightarrow> real \<Rightarrow> real \<Rightarrow> nat \<Rightarrow> real \<times> nat" where
  "randomVariation u v percentage n =
     (let variation = v * (percentage / 100)
      in (v + (u n * 2 - 1) * variation, Suc n))"

definition randomAngleVariation :: "random \<Rightarrow> real \<Rightarrow> real \<Rightarrow> nat \<Rightarrow> real \<times> nat" where
  "randomAngleVariation u angle maxDegrees n = (angle + (u n * 2 - 1) * maxDegrees, Suc n)"

subsection \<open>The occupancy map\<close>

text \<open>
  \<open>x.toFixed(3)\<close> writes a minus sign when \<open>x < 0\<close>, then the integer \<open>n\<close> nearest to
  \<open>|x| * 1000\<close> (the larger one on a tie) with a decimal point before its last three
  digits. The text is determined by the sign and \<open>n\<close>, and determines them, so the model
  keeps that pair in place of the text; \<open>parseFloat\<close> reads the decimal back. (For
  \<open>|x| \<ge> 10^21\<close> JavaScript switches to exponent notation; that range is not modelled.)
  A grid key, in the source the two texts joined by an underscore, is the pair of the two.
\<close>

type_synonym Fixed3 = "bool \<times> nat"

definition toFixed3 :: "real \<Rightarrow> Fixed3" where
  "toFixed3 x = (x < 0, nat \<lfloor>\<bar>x\<bar> * 1000 + 1 / 2\<rfloor>)"

definition parseFloat :: "Fixed3 \<Rightarrow> real" where
  "parseFloat s = (if fst s then - (real (snd s) / 1000) else real (snd s) / 1000)"

type_synonym GridKey = "Fixed3 \<times> Fixed3"

definition gridKeyOf :: "DriftPoint \<Rightarrow> GridKey" where
  "gridKeyOf newPoint = (toFixed3 (lat newPoint), toFixed3 (lng newPoint))"

text \<open>
  A JavaScript \<open>Map\<close> iterates in insertion order, and \<open>set\<close> on a key already present
  keeps its place: an association list with distinct keys.
\<close>

type_synonym PointCounts = "(GridKey \<times> nat) list"

definition mapGet :: "('k \<times> 'v) list \<Rightarrow> 'k \<Rightarrow> 'v option" where
  "mapGet m k = map_of m k"

fun mapSet :: "('k \<times> 'v) list \<Rightarrow> 'k \<Rightarrow> 'v \<Rightarrow> ('k \<times> 'v) list" where
  "mapSet [] k v = [(k, v)]"
| "mapSet ((k', v') # m) k v = (if k' = k then (k, v) # m else (k', v') # mapSet m k v)"

definition orZero :: "nat option \<Rightarrow> nat" where
  \<comment> \<open>\<open>x || 0\<close>: \<open>undefined\<close> and 0 both give 0\<close>
  "orZero x = (case x of None \<Rightarrow> 0 | Some c \<Rightarrow> c)"

text \<open>
  \<open>Math.max(...xs)\<close> and \<open>Math.min(...xs)\<close>. With no argument JavaScript returns
  \<open>-Infinity\<close> and \<open>+Infinity\<close>, which no number of the model is: that case is \<open>None\<close>.
\<close>

fun mathMax :: "('a::linorder) list \<Rightarrow> 'a option" where
  "mathMax [] = None"
| "mathMax (x # xs) = Some (fold max xs x)"

fun mathMin :: "('a::linorder) list \<Rightarrow> 'a option" where
  "mathMin [] = None"
| "mathMin (x # xs) = Some (fold min xs x)"

subsection \<open>The Monte Carlo run\<close>

text \<open>
  The variables the two loops update. \<open>Engine\<close> holds those declared before the outer
  loop, and the count of \<open>Math.random()\<close> calls; \<open>Walk\<close> those of one path.
\<close>

record Engine =
  paths :: "DriftPoint list list"
  allPoints :: "DriftPoint list"
  pointCounts :: PointCounts
  randomCalls :: nat

record Walk =
  path :: "DriftPoint list"
  currentLat :: real
  currentLng :: real

definition hourBody :: "random \<Rightarrow> MarineWeatherData \<Rightarrow> Walk \<times> Engine \<Rightarrow> Walk \<times> Engine" where
  "hourBody u weather s =
     (let (w, e) = s;
          (variedWindSpeed, n1) = randomVariation u (windSpeed weather) 20 (randomCalls e);
          (variedCurrentSpeed, n2) = randomVariation u (currentSpeed weather) 15 n1;
          (variedWindDirection, n3) = randomAngleVariation u (windDirection weather) 15 n2;
          (variedCurrentDirection, n4) = randomAngleVariation u (currentDirection weather) 10 n3;
          newPoint = calculateDrift (currentLat w) (currentLng w)
                       variedWindSpeed variedWindDirection
                       variedCurrentSpeed variedCurrentDirection 1;
          gridKey = gridKeyOf newPoint
      in (\<lparr>path = path w @ [newPoint], currentLat = lat newPoint, currentLng = lng newPoint\<rparr>,
          e\<lparr>allPoints := allPoints e @ [newPoint],
            pointCounts := mapSet (pointCounts e) gridKey (orZero (mapGet (pointCounts e) gridKey) + 1),
            randomCalls := n4\<rparr>))"

function hourLoop ::
  "random \<Rightarrow> MarineWeatherData \<Rightarrow> real \<Rightarrow> nat \<Rightarrow> Walk \<times> Engine \<Rightarrow> Walk \<times> Engine" where
  "hourLoop u weather simulationHours hour s =
     (if real hour \<le> simulationHours
      then hourLoop u weather simulationHours (Suc hour) (hourBody u weather s)
      else s)"
  by pat_completeness auto
termination
proof (relation "measure (\<lambda>(u, weather, simulationHours, hour, s).
                   Suc (nat \<lfloor>simulationHours\<rfloor>) - hour)")
  fix u :: random and weather :: MarineWeatherData and simulationHours :: real
    and hour :: nat and s :: "Walk \<times> Engine"
  assume "real hour \<le> simulationHours"
  then have "int hour \<le> \<lfloor>simulationHours\<rfloor>" by (simp add: le_floor_iff)
  then have "hour \<le> nat \<lfloor>simulationHours\<rfloor>" by simp
  then show "((u, weather, simulationHours, Suc hour, hourBody u weather s),
              (u, weather, simulationHours, hour, s))
             \<in> measure (\<lambda>(u, weather, simulationHours, hour, s).
                   Suc (nat \<lfloor>simulationHours\<rfloor>) - hour)"
    by simp
qed simp

definition pathBody ::
  "random \<Rightarrow> real \<Rightarrow> real \<Rightarrow> MarineWeatherData \<Rightarrow> real \<Rightarrow> Engine \<Rightarrow> Engine" where
  "pathBody u startLat startLng weather simulationHours e =
     (let w0 = \<lparr>path = [\<lparr>lat = startLat, lng = startLng\<rparr>],
                currentLat = startLat, currentLng = startLng\<rparr>;
          (w, e') = hourLoop u weather simulationHours 1 (w0, e)
      in e'\<lparr>paths := paths e' @ [path w]\<rparr>)"

function pathLoop ::
  "random \<Rightarrow> real \<Rightarrow> real \<Rightarrow> MarineWeatherData \<Rightarrow> real \<Rightarrow> real \<Rightarrow> nat \<Rightarrow> Engine \<Rightarrow> Engine" where
  "pathLoop u startLat startLng weather simulationHours numPaths pathIndex e =
     (if real pathIndex < numPaths
      then pathLoop u startLat startLng weather simulationHours numPaths (Suc pathIndex)
             (pathBody u startLat startLng weather simulationHours e)
      else e)"
  by pat_completeness auto
termination
proof (relation "measure (\<lambda>(u, startLat, startLng, weather, simulationHours, numPaths,
                   pathIndex, e). nat \<lceil>numPaths\<rceil> - pathIndex)")
  fix u :: random and startLat startLng :: real and weather :: MarineWeatherData
    and simulationHours numPaths :: real and pathIndex :: nat and e :: Engine
  assume "real pathIndex < numPaths"
  then have "int pathIndex < \<lceil>numPaths\<rceil>" by (simp add: less_ceiling_iff)
  then have "pathIndex < nat \<lceil>numPaths\<rceil>" by simp
  then show "((u, startLat, startLng, weather, simulationHours, numPaths, Suc pathIndex,
               pathBody u startLat startLng weather simulationHours e),
              (u, startLat, startLng, weather, simulationHours, numPaths, pathIndex, e))
             \<in> measure (\<lambda>(u, startLat, startLng, weather, simulationHours, numPaths,
                   pathIndex, e). nat \<lceil>numPaths\<rceil> - pathIndex)"
    by simp
qed simp

text \<open>
  \<open>points.slice(start, end)\<close> for \<open>0 \<le> start \<le> end\<close>; both ends are clipped to the
  length of the array.
\<close>

definition slice :: "'a list \<Rightarrow> nat \<Rightarrow> nat \<Rightarrow> 'a list" where
  "slice xs startIndex endIndex = take (endIndex - startIndex) (drop startIndex xs)"

definition centroidBody :: "DriftPoint list \<Rightarrow> nat \<Rightarrow> nat \<Rightarrow> DriftPoint list \<Rightarrow> DriftPoint list" where
  "centroidBody points pointsPerHour h centroids =
     (let startIndex = h * pointsPerHour;
          endIndex = startIndex + pointsPerHour;
          hourPoints = slice points startIndex endIndex
      in if length hourPoints > 0
         then let avgLat = foldl (\<lambda>s p. s + lat p) 0 hourPoints / real (length hourPoints);
                  avgLng = foldl (\<lambda>s p. s + lng p) 0 hourPoints / real (length hourPoints)
              in centroids @ [\<lparr>lat = avgLat, lng = avgLng\<rparr>]
         else centroids)"

function centroidLoop ::
  "DriftPoint list \<Rightarrow> real \<Rightarrow> nat \<Rightarrow> nat \<Rightarrow> DriftPoint list \<Rightarrow> DriftPoint list" where
  "centroidLoop points hours pointsPerHour h centroids =
     (if real h < hours
      then centroidLoop points hours pointsPerHour (Suc h)
             (centroidBody points pointsPerHour h centroids)
      else centroids)"
  by pat_completeness auto
termination
proof (relation "measure (\<lambda>(points, hours, pointsPerHour, h, centroids).
                   nat \<lceil>hours\<rceil> - h)")
  fix points centroids :: "DriftPoint list" and hours :: real and pointsPerHour h :: nat
  assume "real h < hours"
  then have "int h < \<lceil>hours\<rceil>" by (simp add: less_ceiling_iff)
  then have "h < nat \<lceil>hours\<rceil>" by simp
  then show "((points, hours, pointsPerHour, Suc h,
               centroidBody points pointsPerHour h centroids),
              (points, hours, pointsPerHour, h, centroids))
             \<in> measure (\<lambda>(points, hours, pointsPerHour, h, centroids).
                   nat \<lceil>hours\<rceil> - h)"
    by simp
qed simp

text \<open>
  \<open>pointsPerHour\<close> is used in the loop only, where \<open>hours\<close> is positive and the
  quotient a number that is not negative, so its floor is a natural number. With
  \<open>hours = 0\<close> the quotient is \<open>Infinity\<close> in JavaScript and with \<open>hours < 0\<close> it is
  negative; the loop then has no iteration and the model's value for it (0) is not used.
\<close>

definition calculateCentroidPoints :: "DriftPoint list \<Rightarrow> real \<Rightarrow> DriftPoint list" where
  "calculateCentroidPoints points hours =
     (if length points = 0 then []
      else let pointsPerHour = nat \<lfloor>real (length points) / hours\<rfloor>
           in centroidLoop points hours pointsPerHour 0 [])"

text \<open>
  In the \<open>forEach\<close> the divisor \<open>maxCount\<close> is the maximum of a non-empty map. Were it
  \<open>-Infinity\<close>, \<open>count / maxCount\<close> would be (minus) zero.
\<close>

definition heatmapPointOf :: "nat option \<Rightarrow> GridKey \<times> nat \<Rightarrow> HeatmapPoint" where
  "heatmapPointOf maxCount entry =
     (let (key, count) = entry
      in \<lparr>lat = parseFloat (fst key), lng = parseFloat (snd key),
          intensity = (case maxCount of None \<Rightarrow> 0 | Some m \<Rightarrow> real count / real m)\<rparr>)"

definition runMonteCarloSimulation ::
  "random \<Rightarrow> real \<Rightarrow> real \<Rightarrow> MarineWeatherData \<Rightarrow> real \<Rightarrow> real \<Rightarrow> DriftSimulationResult" where
  "runMonteCarloSimulation u startLat startLng weather simulationHours numPaths =
     (let e = pathLoop u startLat startLng weather simulationHours numPaths 0
                \<lparr>paths = [], allPoints = [], pointCounts = [], randomCalls = 0\<rparr>;
          maxCount = mathMax (map snd (pointCounts e))
      in \<lparr>predictedPoints = calculateCentroidPoints (allPoints e) simulationHours,
          heatmapPoints = map (heatmapPointOf maxCount) (pointCounts e),
          driftPaths = paths e\<rparr>)"

subsection \<open>The search radius\<close>

text \<open>
  Past the test on the length the four lists have two or more members, so the last case
  below is not reached. (Of no latitudes the range would be \<open>-Infinity\<close> in JavaScript,
  and the clamped radius 2.)
\<close>

definition generateSearchAreaRadius :: "HeatmapPoint list \<Rightarrow> real" where
  "generateSearchAreaRadius points =
     (if length points < 2 then 5
      else let lats = map lat points;
               lngs = map lng points
           in case (mathMax lats, mathMin lats, mathMax lngs, mathMin lngs) of
                (Some maxLat, Some minLat, Some maxLng, Some minLng) \<Rightarrow>
                  (let latRange = maxLat - minLat;
                       lngRange = maxLng - minLng;
                       maxRange = max latRange lngRange;
                       radiusKm = (maxRange * 111) / 2
                   in max 2 (min 50 radiusKm))
              | _ \<Rightarrow> 2)"

section \<open>What the loops compute\<close>

text \<open>
  Closed forms of the two loops, used in the proofs below. \<open>bump\<close> is the update of the
  occupancy map for one key, \<open>hourPoint\<close> the point one pass of the inner loop computes
  from the position \<open>p\<close> when \<open>n\<close> calls of \<open>Math.random()\<close> came before it, and
  \<open>walkFrom\<close> the \<open>k\<close> points of \<open>k\<close> passes in a row.
\<close>

definition bump :: "PointCounts \<Rightarrow> GridKey \<Rightarrow> PointCounts" where
  "bump m k = mapSet m k (orZero (mapGet m k) + 1)"

definition bumpAll :: "DriftPoint list \<Rightarrow> PointCounts \<Rightarrow> PointCounts" where
  "bumpAll ps m = fold (\<lambda>q m. bump m (gridKeyOf q)) ps m"

definition hourPoint :: "random \<Rightarrow> MarineWeatherData \<Rightarrow> DriftPoint \<Rightarrow> nat \<Rightarrow> DriftPoint" where
  "hourPoint u weather p n =
     calculateDrift (lat p) (lng p)
       (windSpeed weather + (u n * 2 - 1) * (windSpeed weather * (20 / 100)))
       (windDirection weather + (u (n + 2) * 2 - 1) * 15)
       (currentSpeed weather + (u (n + 1) * 2 - 1) * (currentSpeed weather * (15 / 100)))
       (currentDirection weather + (u (n + 3) * 2 - 1) * 10)
       1"

primrec walkFrom ::
  "random \<Rightarrow> MarineWeatherData \<Rightarrow> DriftPoint \<Rightarrow> nat \<Rightarrow> nat \<Rightarrow> DriftPoint list" where
  "walkFrom u weather p n 0 = []"
| "walkFrom u weather p n (Suc k) =
     (let q = hourPoint u weather p n in q # walkFrom u weather q (n + 4) k)"

definition position :: "Walk \<Rightarrow> DriftPoint" where
  "position w = \<lparr>lat = currentLat w, lng = currentLng w\<rparr>"

definition startPoint :: "real \<Rightarrow> real \<Rightarrow> DriftPoint" where
  "startPoint startLat startLng = \<lparr>lat = startLat, lng = startLng\<rparr>"

text \<open>
  The hourly points of \<open>k\<close> paths in a row, each of \<open>H\<close> hours from \<open>p\<close>, and the points
  of a whole run in the order they are made.
\<close>

definition walksFrom ::
  "random \<Rightarrow> MarineWeatherData \<Rightarrow> DriftPoint \<Rightarrow> nat \<Rightarrow> nat \<Rightarrow> nat \<Rightarrow> DriftPoint list list" where
  "walksFrom u weather p H n k = map (\<lambda>i. walkFrom u weather p (n + 4 * H * i) H) [0..<k]"

definition sampledPoints ::
  "random \<Rightarrow> real \<Rightarrow> real \<Rightarrow> MarineWeatherData \<Rightarrow> nat \<Rightarrow> nat \<Rightarrow> DriftPoint list" where
  "sampledPoints u startLat startLng weather H N =
     concat (walksFrom u weather (startPoint startLat startLng) H 0 N)"

section \<open>The words of the specification\<close>

text \<open>
  The specification describes the predicted points by chunks of a pool and their means.
  \<open>chunk pool n h\<close> is the \<open>h\<close>-th run of \<open>n\<close> consecutive members of the pool (shorter,
  or empty, where the pool ends), \<open>mean\<close> the arithmetic mean, and \<open>centroid\<close> the point
  of the mean latitude and the mean longitude.
\<close>

definition chunk :: "'a list \<Rightarrow> nat \<Rightarrow> nat \<Rightarrow> 'a list" where
  "chunk pool n h = take n (drop (h * n) pool)"

definition mean :: "real list \<Rightarrow> real" where
  "mean xs = sum_list xs / real (length xs)"

definition centroid :: "DriftPoint list \<Rightarrow> DriftPoint" where
  "centroid ps = \<lparr>lat = mean (map lat ps), lng = mean (map lng ps)\<rparr>"

definition chunkCentroids :: "DriftPoint list \<Rightarrow> nat \<Rightarrow> DriftPoint list" where
  "chunkCentroids pool hours =
     (let n = length pool div hours
      in map centroid (filter (\<lambda>c. c \<noteq> []) (map (chunk pool n) [0..<hours])))"

section \<open>The loops in closed form\<close>

declare hourLoop.simps [simp del]
declare pathLoop.simps [simp del]
declare centroidLoop.simps [simp del]

subsection \<open>The hour loop\<close>

lemma DriftPoint_eta: "\<lparr>lat = lat q, lng = lng q\<rparr> = (q::DriftPoint)"
  by simp

lemma hourBody_fst:
  "fst (hourBody u weather (w, e)) =
     (let q = hourPoint u weather (position w) (randomCalls e)
      in \<lparr>path = path w @ [q], currentLat = lat q, currentLng = lng q\<rparr>)"
  by (simp add: hourBody_def hourPoint_def position_def randomVariation_def
      randomAngleVariation_def Let_def numeral_eq_Suc)

lemma hourBody_snd:
  "snd (hourBody u weather (w, e)) =
     (let q = hourPoint u weather (position w) (randomCalls e)
      in e\<lparr>allPoints := allPoints e @ [q],
           pointCounts := bump (pointCounts e) (gridKeyOf q),
           randomCalls := randomCalls e + 4\<rparr>)"
  by (simp add: hourBody_def hourPoint_def position_def randomVariation_def
      randomAngleVariation_def Let_def bump_def numeral_eq_Suc)

lemma hourLoop_run:
  "Suc H - hour = k \<Longrightarrow>
   hourLoop u weather (real H) hour (w, e) =
     (let new = walkFrom u weather (position w) (randomCalls e) k
      in (\<lparr>path = path w @ new,
           currentLat = lat (last (position w # new)),
           currentLng = lng (last (position w # new))\<rparr>,
          e\<lparr>allPoints := allPoints e @ new,
            pointCounts := fold (\<lambda>q m. bump m (gridKeyOf q)) new (pointCounts e),
            randomCalls := randomCalls e + 4 * k\<rparr>))"
proof (induction k arbitrary: hour w e)
  case 0
  then have "\<not> hour \<le> H" by simp
  then show ?case
    by (subst hourLoop.simps) (simp add: position_def)
next
  case (Suc k)
  then have le: "hour \<le> H" and rest: "Suc H - Suc hour = k" by simp_all
  obtain w' e' where b: "hourBody u weather (w, e) = (w', e')"
    by (cases "hourBody u weather (w, e)")
  have w': "w' = (let q = hourPoint u weather (position w) (randomCalls e)
      in \<lparr>path = path w @ [q], currentLat = lat q, currentLng = lng q\<rparr>)"
    using hourBody_fst [of u weather w e] b by simp
  have e': "e' = (let q = hourPoint u weather (position w) (randomCalls e)
      in e\<lparr>allPoints := allPoints e @ [q],
           pointCounts := bump (pointCounts e) (gridKeyOf q),
           randomCalls := randomCalls e + 4\<rparr>)"
    using hourBody_snd [of u weather w e] b by simp
  have "hourLoop u weather (real H) hour (w, e) = hourLoop u weather (real H) (Suc hour) (w', e')"
    using le b by (subst hourLoop.simps) simp
  also note Suc.IH [OF rest, of w' e']
  finally show ?case
    by (simp add: w' e' Let_def position_def add.assoc DriftPoint_eta)
qed

lemma length_walkFrom: "length (walkFrom u weather p n k) = k"
  by (induction k arbitrary: p n) (simp_all add: Let_def)

lemma walkFrom_step:
  "j < k \<Longrightarrow>
   (p # walkFrom u weather p n k) ! Suc j =
     hourPoint u weather ((p # walkFrom u weather p n k) ! j) (n + 4 * j)"
proof (induction k arbitrary: p n j)
  case 0
  then show ?case by simp
next
  case (Suc k)
  show ?case
  proof (cases j)
    case 0
    then show ?thesis by (simp add: Let_def)
  next
    case (Suc i)
    with Suc.prems have "i < k" by simp
    from Suc.IH [OF this, of "hourPoint u weather p n" "n + 4"] Suc show ?thesis
      by (simp add: Let_def add.assoc)
  qed
qed

subsection \<open>The path loop\<close>

lemma bumpAll_append: "bumpAll (ps @ qs) m = bumpAll qs (bumpAll ps m)"
  by (simp add: bumpAll_def)

lemma pathBody_run:
  "pathBody u startLat startLng weather (real H) e =
     (let new = walkFrom u weather (startPoint startLat startLng) (randomCalls e) H
      in e\<lparr>allPoints := allPoints e @ new,
           pointCounts := bumpAll new (pointCounts e),
           randomCalls := randomCalls e + 4 * H,
           paths := paths e @ [startPoint startLat startLng # new]\<rparr>)"
  by (simp add: pathBody_def hourLoop_run [where k = H] position_def startPoint_def
      Let_def bumpAll_def)

lemma walksFrom_0: "walksFrom u weather p H n 0 = []"
  by (simp add: walksFrom_def)

lemma walksFrom_Suc:
  "walksFrom u weather p H n (Suc k) =
     walkFrom u weather p n H # walksFrom u weather p H (n + 4 * H) k"
proof -
  have "[0..<Suc k] = 0 # map Suc [0..<k]"
    by (simp add: upt_conv_Cons map_Suc_upt del: upt_Suc)
  then show ?thesis
    by (simp add: walksFrom_def comp_def algebra_simps del: upt_Suc)
qed

lemma length_walksFrom: "length (walksFrom u weather p H n k) = k"
  by (simp add: walksFrom_def)

lemma nth_walksFrom:
  "i < k \<Longrightarrow> walksFrom u weather p H n k ! i = walkFrom u weather p (n + 4 * H * i) H"
  by (simp add: walksFrom_def)

lemma length_concat_walksFrom: "length (concat (walksFrom u weather p H n k)) = k * H"
  by (induction k arbitrary: n) (simp_all add: walksFrom_0 walksFrom_Suc length_walkFrom)

lemma pathLoop_run:
  "numPaths - pathIndex = k \<Longrightarrow>
   pathLoop u startLat startLng weather (real H) (real numPaths) pathIndex e =
     (let new = walksFrom u weather (startPoint startLat startLng) H (randomCalls e) k
      in e\<lparr>allPoints := allPoints e @ concat new,
           pointCounts := bumpAll (concat new) (pointCounts e),
           randomCalls := randomCalls e + 4 * H * k,
           paths := paths e @ map (\<lambda>ps. startPoint startLat startLng # ps) new\<rparr>)"
proof (induction k arbitrary: pathIndex e)
  case 0
  then have "\<not> pathIndex < numPaths" by simp
  then show ?case
    by (subst pathLoop.simps) (simp add: walksFrom_0 bumpAll_def)
next
  case (Suc k)
  then have lt: "pathIndex < numPaths" and rest: "numPaths - Suc pathIndex = k" by simp_all
  have "pathLoop u startLat startLng weather (real H) (real numPaths) pathIndex e =
        pathLoop u startLat startLng weather (real H) (real numPaths) (Suc pathIndex)
          (pathBody u startLat startLng weather (real H) e)"
    using lt by (subst pathLoop.simps) simp
  also note Suc.IH [OF rest]
  finally show ?case
    by (simp add: pathBody_run Let_def walksFrom_Suc bumpAll_append algebra_simps)
qed

subsection \<open>The parts of a run\<close>

lemma engine_allPoints:
  "allPoints (pathLoop u startLat startLng weather (real H) (real N) 0
                \<lparr>paths = [], allPoints = [], pointCounts = [], randomCalls = 0\<rparr>) =
     sampledPoints u startLat startLng weather H N"
  by (simp add: pathLoop_run [where k = N] Let_def sampledPoints_def)

lemma engine_pointCounts:
  "pointCounts (pathLoop u startLat startLng weather (real H) (real N) 0
                \<lparr>paths = [], allPoints = [], pointCounts = [], randomCalls = 0\<rparr>) =
     bumpAll (sampledPoints u startLat startLng weather H N) []"
  by (simp add: pathLoop_run [where k = N] Let_def sampledPoints_def)

lemma run_paths:
  "driftPaths (runMonteCarloSimulation u startLat startLng weather (real H) (real N)) =
     map (\<lambda>ps. startPoint startLat startLng # ps)
       (walksFrom u weather (startPoint startLat startLng) H 0 N)"
  by (simp add: runMonteCarloSimulation_def pathLoop_run [where k = N] Let_def)

lemma run_heatmapPoints:
  "heatmapPoints (runMonteCarloSimulation u startLat startLng weather (real H) (real N)) =
     (let counts = bumpAll (sampledPoints u startLat startLng weather H N) []
      in map (heatmapPointOf (mathMax (map snd counts))) counts)"
  by (simp add: runMonteCarloSimulation_def pathLoop_run [where k = N] Let_def sampledPoints_def)

lemma run_predictedPoints:
  "predictedPoints (runMonteCarloSimulation u startLat startLng weather (real H) (real N)) =
     calculateCentroidPoints (sampledPoints u startLat startLng weather H N) (real H)"
  by (simp add: runMonteCarloSimulation_def pathLoop_run [where k = N] Let_def sampledPoints_def)

lemma sampledPoints_pool:
  "sampledPoints u startLat startLng weather H N =
     concat (map tl (driftPaths (runMonteCarloSimulation u startLat startLng weather (real H) (real N))))"
  by (simp add: run_paths sampledPoints_def comp_def)

lemma length_sampledPoints: "length (sampledPoints u startLat startLng weather H N) = N * H"
  by (simp add: sampledPoints_def length_concat_walksFrom)

lemma length_run_paths:
  "length (driftPaths (runMonteCarloSimulation u startLat startLng weather (real H) (real N))) = N"
  by (simp add: run_paths length_walksFrom)

lemma nth_run_paths:
  "i < N \<Longrightarrow>
   driftPaths (runMonteCarloSimulation u startLat startLng weather (real H) (real N)) ! i =
     startPoint startLat startLng #
       walkFrom u weather (startPoint startLat startLng) (4 * H * i) H"
  by (simp add: run_paths length_walksFrom nth_walksFrom)

subsection \<open>The centroid loop\<close>

lemma foldl_plus_sum_list:
  fixes a :: real
  shows "foldl (\<lambda>s p. s + f p) a ps = a + sum_list (map f ps)"
  by (induction ps arbitrary: a) simp_all

lemma centroidBody_chunk:
  "centroidBody points pointsPerHour h centroids =
     (if chunk points pointsPerHour h \<noteq> []
      then centroids @ [centroid (chunk points pointsPerHour h)]
      else centroids)"
  by (simp add: centroidBody_def slice_def chunk_def centroid_def mean_def
      foldl_plus_sum_list Let_def)

lemma centroidLoop_run:
  "hours - h = k \<Longrightarrow>
   centroidLoop points (real hours) pointsPerHour h centroids =
     centroids @ map centroid
       (filter (\<lambda>c. c \<noteq> []) (map (chunk points pointsPerHour) [h..<hours]))"
proof (induction k arbitrary: h centroids)
  case 0
  then have "\<not> h < hours" by simp
  then show ?case
    by (subst centroidLoop.simps) simp
next
  case (Suc k)
  then have lt: "h < hours" and rest: "hours - Suc h = k" by simp_all
  have "centroidLoop points (real hours) pointsPerHour h centroids =
        centroidLoop points (real hours) pointsPerHour (Suc h)
          (centroidBody points pointsPerHour h centroids)"
    using lt by (subst centroidLoop.simps) simp
  also note Suc.IH [OF rest]
  finally show ?case
    using lt by (simp add: centroidBody_chunk upt_conv_Cons)
qed

lemma chunk_Nil: "chunk [] n h = []"
  by (simp add: chunk_def)

lemma floor_quotient: "nat \<lfloor>real n / real h\<rfloor> = n div h"
  by (simp add: floor_divide_of_nat_eq)

lemma calculateCentroidPoints_chunks:
  "calculateCentroidPoints points (real hours) = chunkCentroids points hours"
proof (cases "points = []")
  case True
  then show ?thesis
    by (simp add: calculateCentroidPoints_def chunkCentroids_def chunk_Nil)
next
  case False
  then show ?thesis
    by (simp add: calculateCentroidPoints_def chunkCentroids_def Let_def floor_quotient
        centroidLoop_run [where k = hours])
qed

lemma concat_chunks: "concat (map (chunk xs n) [0..<k]) = take (k * n) xs"
proof (induction k)
  case 0
  then show ?case by simp
next
  case (Suc k)
  have "take (k * n + n) xs = take (k * n) xs @ take n (drop (k * n) xs)"
    by (rule take_add)
  with Suc show ?case
    by (simp add: chunk_def add.commute)
qed

lemma length_chunk_full:
  "(Suc h) * n \<le> length xs \<Longrightarrow> length (chunk xs n h) = n"
  by (simp add: chunk_def)

lemma chunk_nths:
  assumes "(Suc h) * n \<le> length xs"
  shows "chunk xs n h = map (\<lambda>i. xs ! i) [h * n..<(h + 1) * n]"
proof (rule nth_equalityI)
  show "length (chunk xs n h) = length (map (\<lambda>i. xs ! i) [h * n..<(h + 1) * n])"
    using assms by (simp add: chunk_def)
next
  fix i assume "i < length (chunk xs n h)"
  then have i: "i < n" by (simp add: chunk_def)
  with assms have "h * n + i < length xs" by simp
  with i show "chunk xs n h ! i = map (\<lambda>i. xs ! i) [h * n..<(h + 1) * n] ! i"
    by (simp add: chunk_def)
qed

subsection \<open>The occupancy map\<close>

lemma mapSet_not_Nil: "mapSet m k v \<noteq> []"
  by (induction m k v rule: mapSet.induct) simp_all

lemma set_mapSet: "set (mapSet m k v) \<subseteq> insert (k, v) (set m)"
  by (induction m k v rule: mapSet.induct) auto

lemma bump_not_Nil: "bump m k \<noteq> []"
  by (simp add: bump_def mapSet_not_Nil)

lemma bump_positive:
  assumes "\<forall>c \<in> set (map snd m). 0 < c"
  shows "\<forall>c \<in> set (map snd (bump m k)). 0 < c"
proof
  fix c
  assume "c \<in> set (map snd (bump m k))"
  then obtain k' where "(k', c) \<in> set (bump m k)" by auto
  with set_mapSet [of m k "orZero (mapGet m k) + 1"]
  have "(k', c) = (k, orZero (mapGet m k) + 1) \<or> (k', c) \<in> set m"
    by (auto simp: bump_def)
  then show "0 < c"
  proof
    assume "(k', c) = (k, orZero (mapGet m k) + 1)"
    then show ?thesis by simp
  next
    assume "(k', c) \<in> set m"
    then have "c \<in> set (map snd m)" by force
    with assms show ?thesis by blast
  qed
qed

lemma bumpAll_positive:
  "\<forall>c \<in> set (map snd m). 0 < c \<Longrightarrow> \<forall>c \<in> set (map snd (bumpAll ps m)). 0 < c"
proof (induction ps arbitrary: m)
  case Nil
  then show ?case by (simp add: bumpAll_def)
next
  case (Cons p ps)
  have "bumpAll (p # ps) m = bumpAll ps (bump m (gridKeyOf p))"
    by (simp add: bumpAll_def)
  with Cons.IH [OF bump_positive [OF Cons.prems]] show ?case by simp
qed

lemma bumpAll_not_Nil: "m \<noteq> [] \<or> ps \<noteq> [] \<Longrightarrow> bumpAll ps m \<noteq> []"
proof (induction ps arbitrary: m)
  case Nil
  then show ?case by (simp add: bumpAll_def)
next
  case (Cons p ps)
  have "bumpAll (p # ps) m = bumpAll ps (bump m (gridKeyOf p))"
    by (simp add: bumpAll_def)
  with Cons.IH [of "bump m (gridKeyOf p)"] bump_not_Nil show ?case by simp
qed

text \<open>
  The keys stay distinct, and the count kept for a key is the number of sampled points
  whose grid key it is.
\<close>

lemma fst_set_mapSet: "fst ` set (mapSet m k v) = insert k (fst ` set m)"
  by (induction m k v rule: mapSet.induct) auto

lemma distinct_mapSet:
  "distinct (map fst m) \<Longrightarrow> distinct (map fst (mapSet m k v))"
proof (induction m k v rule: mapSet.induct)
  case (1 k v)
  then show ?case by simp
next
  case (2 k' v' m k v)
  then show ?case
    by (auto simp: fst_set_mapSet)
qed

lemma mapGet_mapSet:
  "mapGet (mapSet m k v) k' = (if k' = k then Some v else mapGet m k')"
  by (induction m k v rule: mapSet.induct) (auto simp: mapGet_def)

lemma distinct_bumpAll:
  "distinct (map fst m) \<Longrightarrow> distinct (map fst (bumpAll ps m))"
proof (induction ps arbitrary: m)
  case Nil
  then show ?case by (simp add: bumpAll_def)
next
  case (Cons p ps)
  have "bumpAll (p # ps) m = bumpAll ps (bump m (gridKeyOf p))"
    by (simp add: bumpAll_def)
  with Cons.IH [of "bump m (gridKeyOf p)"] Cons.prems show ?case
    by (simp add: bump_def distinct_mapSet)
qed

lemma orZero_mapGet_bump:
  "orZero (mapGet (bump m k) k') = orZero (mapGet m k') + (if k' = k then 1 else 0)"
  by (simp add: bump_def mapGet_mapSet orZero_def)

lemma occupancy_count:
  "orZero (mapGet (bumpAll ps m) k) =
     orZero (mapGet m k) + length (filter (\<lambda>q. gridKeyOf q = k) ps)"
proof (induction ps arbitrary: m)
  case Nil
  then show ?case by (simp add: bumpAll_def)
next
  case (Cons p ps)
  have "bumpAll (p # ps) m = bumpAll ps (bump m (gridKeyOf p))"
    by (simp add: bumpAll_def)
  with Cons.IH [of "bump m (gridKeyOf p)"] show ?case
    by (auto simp: orZero_mapGet_bump)
qed

lemma occupancy_keys:
  "fst ` set (bumpAll ps m) = fst ` set m \<union> gridKeyOf ` set ps"
proof (induction ps arbitrary: m)
  case Nil
  then show ?case by (simp add: bumpAll_def)
next
  case (Cons p ps)
  have "bumpAll (p # ps) m = bumpAll ps (bump m (gridKeyOf p))"
    by (simp add: bumpAll_def)
  with Cons.IH [of "bump m (gridKeyOf p)"] show ?case
    by (auto simp: bump_def fst_set_mapSet)
qed

lemma occupancy_nth:
  assumes "i < length (bumpAll ps [])"
  shows "snd (bumpAll ps [] ! i) =
           length (filter (\<lambda>q. gridKeyOf q = fst (bumpAll ps [] ! i)) ps)"
proof -
  let ?m = "bumpAll ps []"
  have d: "distinct (map fst ?m)" by (rule distinct_bumpAll) simp
  from assms have "?m ! i \<in> set ?m" by simp
  then have "(fst (?m ! i), snd (?m ! i)) \<in> set ?m" by simp
  with d have "map_of ?m (fst (?m ! i)) = Some (snd (?m ! i))"
    by (simp only: map_of_eq_Some_iff)
  then have "orZero (mapGet ?m (fst (?m ! i))) = snd (?m ! i)"
    by (simp add: mapGet_def orZero_def)
  with occupancy_count [of ps "[]" "fst (?m ! i)"] show ?thesis
    by (simp add: mapGet_def orZero_def)
qed

lemma mathMax_Max: "xs \<noteq> [] \<Longrightarrow> mathMax xs = Some (Max (set xs))"
proof (cases xs)
  case (Cons x ys)
  have "Max (set (x # ys)) = fold max ys x" by (rule Max.set_eq_fold)
  with Cons show ?thesis by simp
qed simp

lemma mathMin_Min: "xs \<noteq> [] \<Longrightarrow> mathMin xs = Some (Min (set xs))"
proof (cases xs)
  case (Cons x ys)
  have "Min (set (x # ys)) = fold min ys x" by (rule Min.set_eq_fold)
  with Cons show ?thesis by simp
qed simp

lemma intensity_heatmapPointOf:
  "intensity (heatmapPointOf (Some m) (key, c)) = real c / real m"
  by (simp add: heatmapPointOf_def)

lemma heatmap_normalised:
  fixes counts :: PointCounts
  assumes ne: "counts \<noteq> []" and pos: "\<forall>c \<in> set (map snd counts). 0 < c"
  defines "hs \<equiv> map (heatmapPointOf (mathMax (map snd counts))) counts"
  shows "\<forall>h \<in> set hs. 0 < intensity h \<and> intensity h \<le> 1"
    and "\<exists>h \<in> set hs. intensity h = 1"
proof -
  let ?cs = "map snd counts"
  let ?M = "Max (set ?cs)"
  from ne have cs: "?cs \<noteq> []" by simp
  then have mx: "mathMax ?cs = Some ?M" by (rule mathMax_Max)
  have M_in: "?M \<in> set ?cs" using cs by (intro Max_in) simp_all
  with pos have M_pos: "0 < ?M" by blast
  show "\<forall>h \<in> set hs. 0 < intensity h \<and> intensity h \<le> 1"
  proof
    fix h assume "h \<in> set hs"
    then obtain key c where kc: "(key, c) \<in> set counts"
      and h: "h = heatmapPointOf (Some ?M) (key, c)"
      unfolding hs_def mx by auto
    from kc have c_in: "c \<in> set ?cs" by force
    then have "c \<le> ?M" by (intro Max_ge) simp_all
    moreover from c_in pos have "0 < c" by blast
    ultimately show "0 < intensity h \<and> intensity h \<le> 1"
      using M_pos by (simp add: h intensity_heatmapPointOf)
  qed
  from M_in obtain key where "(key, ?M) \<in> set counts" by auto
  then have "heatmapPointOf (Some ?M) (key, ?M) \<in> set hs"
    unfolding hs_def mx by force
  moreover have "intensity (heatmapPointOf (Some ?M) (key, ?M)) = 1"
    using M_pos by (simp add: intensity_heatmapPointOf)
  ultimately show "\<exists>h \<in> set hs. intensity h = 1" by blast
qed

lemma heatmap_by_count:
  fixes counts :: PointCounts
  assumes ne: "counts \<noteq> []" and pos: "\<forall>c \<in> set (map snd counts). 0 < c"
    and i: "i < length counts"
  defines "hs \<equiv> map (heatmapPointOf (mathMax (map snd counts))) counts"
  shows "intensity (hs ! i) = real (map snd counts ! i) / real (Max (set (map snd counts)))"
    and "intensity (hs ! i) = 1 \<longleftrightarrow> map snd counts ! i = Max (set (map snd counts))"
proof -
  let ?cs = "map snd counts"
  let ?M = "Max (set ?cs)"
  from ne have cs: "?cs \<noteq> []" by simp
  then have mx: "mathMax ?cs = Some ?M" by (rule mathMax_Max)
  have "?M \<in> set ?cs" using cs by (intro Max_in) simp_all
  with pos have M_pos: "0 < ?M" by blast
  obtain key c where kc: "counts ! i = (key, c)" by (cases "counts ! i")
  with i show eq: "intensity (hs ! i) = real (?cs ! i) / real ?M"
    unfolding hs_def mx by (simp add: intensity_heatmapPointOf)
  show "intensity (hs ! i) = 1 \<longleftrightarrow> ?cs ! i = ?M"
    unfolding eq using M_pos by (auto simp del: set_map)
qed

subsection \<open>A run without wind and current\<close>

lemma calculateDrift_still:
  "calculateDrift la lo 0 thetaW 0 thetaC h = \<lparr>lat = la, lng = lo\<rparr>"
  by (simp add: calculateDrift_def Let_def)

lemma hourPoint_still:
  "windSpeed weather = 0 \<Longrightarrow> currentSpeed weather = 0 \<Longrightarrow> hourPoint u weather p n = p"
  by (simp add: hourPoint_def calculateDrift_still)

lemma walkFrom_still:
  "windSpeed weather = 0 \<Longrightarrow> currentSpeed weather = 0 \<Longrightarrow>
   walkFrom u weather p n k = replicate k p"
  by (induction k arbitrary: n) (simp_all add: hourPoint_still Let_def)

text \<open>
  Two paths of two hours in still water, run step by step: every point is the start, the
  one occupied cell has full intensity, and both predicted points are the start.
\<close>

lemma still_run:
  "runMonteCarloSimulation (\<lambda>n. 1 / 4) 13 80
     \<lparr>windSpeed = 0, windDirection = 180, waveHeight = 3 / 2,
      currentSpeed = 0, currentDirection = 200\<rparr> 2 2
   = \<lparr>predictedPoints = [\<lparr>lat = 13, lng = 80\<rparr>, \<lparr>lat = 13, lng = 80\<rparr>],
      heatmapPoints = [\<lparr>lat = 13, lng = 80, intensity = 1\<rparr>],
      driftPaths = [[\<lparr>lat = 13, lng = 80\<rparr>, \<lparr>lat = 13, lng = 80\<rparr>, \<lparr>lat = 13, lng = 80\<rparr>],
                    [\<lparr>lat = 13, lng = 80\<rparr>, \<lparr>lat = 13, lng = 80\<rparr>, \<lparr>lat = 13, lng = 80\<rparr>]]\<rparr>"
  by (simp add: runMonteCarloSimulation_def pathLoop.simps pathBody_def hourLoop.simps
      hourBody_def randomVariation_def randomAngleVariation_def calculateDrift_still
      gridKeyOf_def toFixed3_def mapGet_def orZero_def calculateCentroidPoints_def
      centroidLoop.simps centroidBody_def slice_def heatmapPointOf_def parseFloat_def Let_def)

lemma still_run_paths:
  "driftPaths (runMonteCarloSimulation (\<lambda>n. 1 / 4) 13 80
     \<lparr>windSpeed = 0, windDirection = 180, waveHeight = 3 / 2,
      currentSpeed = 0, currentDirection = 200\<rparr> 2 2)
   = [[\<lparr>lat = 13, lng = 80\<rparr>, \<lparr>lat = 13, lng = 80\<rparr>, \<lparr>lat = 13, lng = 80\<rparr>],
      [\<lparr>lat = 13, lng = 80\<rparr>, \<lparr>lat = 13, lng = 80\<rparr>, \<lparr>lat = 13, lng = 80\<rparr>]]"
  by (simp add: still_run)

text \<open>
  Bounds that are not whole numbers: the path loop runs while the counter is below
  \<open>numPaths\<close> and the hour loop while the hour is at most \<open>simulationHours\<close>, so
  one and a half paths are two, and one and a half hours are one.
\<close>

lemma fractional_bounds_run:
  "driftPaths (runMonteCarloSimulation (\<lambda>n. 1 / 4) 13 80
     \<lparr>windSpeed = 0, windDirection = 180, waveHeight = 3 / 2,
      currentSpeed = 0, currentDirection = 200\<rparr> (3 / 2) (3 / 2))
   = [[\<lparr>lat = 13, lng = 80\<rparr>, \<lparr>lat = 13, lng = 80\<rparr>],
      [\<lparr>lat = 13, lng = 80\<rparr>, \<lparr>lat = 13, lng = 80\<rparr>]]"
  by (simp add: runMonteCarloSimulation_def pathLoop.simps pathBody_def hourLoop.simps
      hourBody_def randomVariation_def randomAngleVariation_def calculateDrift_still Let_def)

lemma toFixed3_examples:
  "toFixed3 13.0827 = (False, 13083)"
  "toFixed3 (- 0.0004) = (True, 0)"
  "toFixed3 (- 80.2705) = (True, 80271)"
  "parseFloat (toFixed3 13.0827) = 13.083"
  by (simp_all add: toFixed3_def parseFloat_def)

subsection \<open>Perturbed speeds\<close>

lemma hourPoint_claim_form:
  "hourPoint u weather p n =
     calculateDrift (lat p) (lng p)
       (windSpeed weather * (1 + 0.20 * (2 * u n - 1)))
       (windDirection weather + 15 * (2 * u (n + 2) - 1))
       (currentSpeed weather * (1 + 0.15 * (2 * u (n + 1) - 1)))
       (currentDirection weather + 10 * (2 * u (n + 3) - 1))
       1"
proof -
  have "windSpeed weather + (u n * 2 - 1) * (windSpeed weather * (20 / 100)) =
        windSpeed weather * (1 + 0.20 * (2 * u n - 1))"
    by (simp add: algebra_simps)
  moreover have "currentSpeed weather + (u (n + 1) * 2 - 1) * (currentSpeed weather * (15 / 100)) =
        currentSpeed weather * (1 + 0.15 * (2 * u (n + 1) - 1))"
    by (simp add: algebra_simps)
  moreover have "windDirection weather + (u (n + 2) * 2 - 1) * 15 =
        windDirection weather + 15 * (2 * u (n + 2) - 1)"
    by (simp add: algebra_simps)
  moreover have "currentDirection weather + (u (n + 3) * 2 - 1) * 10 =
        currentDirection weather + 10 * (2 * u (n + 3) - 1)"
    by (simp add: algebra_simps)
  ultimately show ?thesis
    by (simp only: hourPoint_def)
qed

lemma scaled_speed_bounds:
  fixes b :: real
  assumes "0 \<le> b" and "0 \<le> f" and "- 1 \<le> d" and "d \<le> 1"
  shows "(1 - f) * b \<le> b * (1 + f * d)" and "b * (1 + f * d) \<le> (1 + f) * b"
proof -
  have "- f \<le> f * d"
    using assms(2,3) mult_left_mono [of "- 1" d f] by simp
  then have "1 - f \<le> 1 + f * d" by simp
  from mult_left_mono [OF this assms(1)] show "(1 - f) * b \<le> b * (1 + f * d)"
    by (simp add: mult.commute)
  have "f * d \<le> f"
    using assms(2,4) mult_left_mono [of d 1 f] by simp
  then have "1 + f * d \<le> 1 + f" by simp
  from mult_left_mono [OF this assms(1)] show "b * (1 + f * d) \<le> (1 + f) * b"
    by (simp add: mult.commute)
qed

lemma generateSearchAreaRadius_eq:
  assumes "2 \<le> length hs"
  shows "generateSearchAreaRadius hs =
     max 2 (min 50 ((max (Max (set (map lat hs)) - Min (set (map lat hs)))
                         (Max (set (map lng hs)) - Min (set (map lng hs))) * 111) / 2))"
proof -
  from assms have ne: "map lat hs \<noteq> []" "map lng hs \<noteq> []" by auto
  from assms have "\<not> length hs < 2" by simp
  then show ?thesis
    unfolding generateSearchAreaRadius_def
    by (simp add: mathMax_Max [OF ne(1)] mathMin_Min [OF ne(1)]
        mathMax_Max [OF ne(2)] mathMin_Min [OF ne(2)] Let_def del: set_map)
qed

section \<open>The claims\<close>

subsection \<open>Kinematics\<close>

text \<open>
  Claim C1. For every position, wind speed \<open>w\<close> (km/h), wind direction \<open>thetaW\<close>
  (degrees), current speed \<open>c\<close> (m/s), current direction \<open>thetaC\<close> (degrees) and duration
  \<open>h\<close> (hours), \<open>calculateDrift\<close> returns the position moved by \<open>dLat\<close> and \<open>dLng\<close>,
  where the east and north velocities add 3.5 percent of the wind (in m/s) to the current,
  the east part by the sine and the north part by the cosine of the direction, and the
  displacement in km is turned into degrees on a sphere of radius 6371 km, the longitude
  divided by the cosine of the latitude.
\<close>

theorem calculateDrift_formula:
  "calculateDrift la lo w thetaW c thetaC h =
     (let vE = (w / 3.6) * 0.035 * sin (thetaW * pi / 180) + c * sin (thetaC * pi / 180);
          vN = (w / 3.6) * 0.035 * cos (thetaW * pi / 180) + c * cos (thetaC * pi / 180);
          dLat = ((vN * h * 3600 / 1000) / 6371) * (180 / pi);
          dLng = ((vE * h * 3600 / 1000) / 6371) * (180 / pi) / cos (la * pi / 180)
      in \<lparr>lat = la + dLat, lng = lo + dLng\<rparr>)"
  by (simp add: calculateDrift_def R_def Let_def)

text \<open>
  At the equator, a wind of 36 km/h and a current of 1 m/s, both towards north, move the
  position north by 4.86 km in one hour.
\<close>

theorem calculateDrift_formula_witness:
  "calculateDrift 0 0 36 0 1 0 1 = \<lparr>lat = 4374 / (31855 * pi), lng = 0\<rparr>"
  using calculateDrift_formula [of 0 0 36 0 1 0 1] by (simp add: Let_def)

text \<open>
  Claim C8. For every position, wind and current, \<open>calculateDrift\<close> with a duration of
  zero hours returns the position it was given.
\<close>

theorem calculateDrift_zero_hours:
  "calculateDrift la lo w thetaW c thetaC 0 = \<lparr>lat = la, lng = lo\<rparr>"
  by (simp add: calculateDrift_def Let_def)

theorem calculateDrift_zero_hours_witness:
  "calculateDrift 13.0827 80.2707 20 180 0.5 200 0 = \<lparr>lat = 13.0827, lng = 80.2707\<rparr>"
  using calculateDrift_zero_hours [of "13.0827" "80.2707" 20 180 "0.5" 200] by simp

subsection \<open>Paths\<close>

text \<open>
  Claim C2. For every start position, weather sample and sequence of random values, with
  \<open>simulationHours\<close> between 1 and 12 and \<open>numPaths\<close> between 10 and 200, the run returns
  exactly \<open>numPaths\<close> drift paths, each of \<open>simulationHours + 1\<close> points, the first of which
  is the start position.
\<close>

theorem driftPaths_shape:
  assumes "1 \<le> simulationHours" and "simulationHours \<le> 12"
    and "10 \<le> numPaths" and "numPaths \<le> 200"
  shows "length (driftPaths (runMonteCarloSimulation u startLat startLng weather
                               (real simulationHours) (real numPaths))) = numPaths \<and>
    (\<forall>ps \<in> set (driftPaths (runMonteCarloSimulation u startLat startLng weather
                               (real simulationHours) (real numPaths))).
        length ps = simulationHours + 1 \<and> hd ps = \<lparr>lat = startLat, lng = startLng\<rparr>)"
proof -
  let ?r = "runMonteCarloSimulation u startLat startLng weather (real simulationHours) (real numPaths)"
  have "length ps = simulationHours + 1 \<and> hd ps = \<lparr>lat = startLat, lng = startLng\<rparr>"
    if "ps \<in> set (driftPaths ?r)" for ps
  proof -
    from that obtain i where "i < numPaths" and "ps = driftPaths ?r ! i"
      by (auto simp: in_set_conv_nth length_run_paths)
    then show ?thesis
      by (simp add: nth_run_paths length_walkFrom startPoint_def)
  qed
  then show ?thesis
    by (simp add: length_run_paths)
qed

text \<open>The largest admitted run: 200 paths of 13 points.\<close>

theorem driftPaths_shape_witness:
  "length (driftPaths (runMonteCarloSimulation (\<lambda>n. 1 / 2) 13 80
     \<lparr>windSpeed = 20, windDirection = 180, waveHeight = 3 / 2,
      currentSpeed = 1 / 2, currentDirection = 200\<rparr> 12 200)) = 200 \<and>
   list_all (\<lambda>ps. length ps = 13 \<and> hd ps = \<lparr>lat = 13, lng = 80\<rparr>)
     (driftPaths (runMonteCarloSimulation (\<lambda>n. 1 / 2) 13 80
     \<lparr>windSpeed = 20, windDirection = 180, waveHeight = 3 / 2,
      currentSpeed = 1 / 2, currentDirection = 200\<rparr> 12 200))"
  using driftPaths_shape [of 12 200 "\<lambda>n. 1 / 2" 13 80
     "\<lparr>windSpeed = 20, windDirection = 180, waveHeight = 3 / 2,
      currentSpeed = 1 / 2, currentDirection = 200\<rparr>"]
  by (simp add: list_all_iff)

text \<open>
  Claim C9. In hour \<open>k + 1\<close> of path \<open>p\<close> the sampler draws four random values, the calls
  number \<open>4 * (p * simulationHours + k)\<close> and the three after it, each turned into a value
  \<open>u1, u2, u3, u4\<close> between -1 and 1; the new point of the path is \<open>calculateDrift\<close> of
  the point before it, for one hour, with wind speed \<open>base * (1 + 0.20 * u1)\<close>, current
  speed \<open>base * (1 + 0.15 * u2)\<close>, wind direction \<open>base + 15 * u3\<close> and current direction
  \<open>base + 10 * u4\<close>. So a wind speed that is not negative stays between 0.8 and 1.2 times
  the base, and such a current speed between 0.85 and 1.15 times the base.
\<close>

theorem sampler_hour_step:
  assumes draws: "\<forall>i. 0 \<le> u i \<and> u i < 1"
    and p: "p < numPaths" and k: "k < simulationHours"
  shows
    "(let r = runMonteCarloSimulation u startLat startLng weather (real simulationHours) (real numPaths);
          before = driftPaths r ! p ! k;
          n = 4 * (p * simulationHours + k);
          u1 = 2 * u n - 1;
          u2 = 2 * u (n + 1) - 1;
          u3 = 2 * u (n + 2) - 1;
          u4 = 2 * u (n + 3) - 1;
          variedWindSpeed = windSpeed weather * (1 + 0.20 * u1);
          variedCurrentSpeed = currentSpeed weather * (1 + 0.15 * u2);
          variedWindDirection = windDirection weather + 15 * u3;
          variedCurrentDirection = currentDirection weather + 10 * u4
      in driftPaths r ! p ! Suc k =
           calculateDrift (lat before) (lng before) variedWindSpeed variedWindDirection
             variedCurrentSpeed variedCurrentDirection 1 \<and>
         (\<forall>d \<in> {u1, u2, u3, u4}. - 1 \<le> d \<and> d \<le> 1) \<and>
         (0 \<le> windSpeed weather \<longrightarrow>
            0.8 * windSpeed weather \<le> variedWindSpeed \<and>
            variedWindSpeed \<le> 1.2 * windSpeed weather) \<and>
         (0 \<le> currentSpeed weather \<longrightarrow>
            0.85 * currentSpeed weather \<le> variedCurrentSpeed \<and>
            variedCurrentSpeed \<le> 1.15 * currentSpeed weather))"
proof -
  let ?n = "4 * (p * simulationHours + k)"
  let ?r = "runMonteCarloSimulation u startLat startLng weather (real simulationHours) (real numPaths)"
  have range: "- 1 \<le> 2 * u i - 1 \<and> 2 * u i - 1 \<le> 1" for i
    using draws [rule_format, of i] by simp
  have idx: "4 * simulationHours * p + 4 * k = ?n"
    by (simp add: algebra_simps)
  have step: "driftPaths ?r ! p ! Suc k = hourPoint u weather (driftPaths ?r ! p ! k) ?n"
    using walkFrom_step [OF k, of "startPoint startLat startLng" u weather
        "4 * simulationHours * p"] p
    by (simp only: nth_run_paths idx)
  have wind: "0.8 * windSpeed weather \<le> windSpeed weather * (1 + 0.20 * (2 * u ?n - 1)) \<and>
      windSpeed weather * (1 + 0.20 * (2 * u ?n - 1)) \<le> 1.2 * windSpeed weather"
    if "0 \<le> windSpeed weather"
    using scaled_speed_bounds [OF that, of "0.20" "2 * u ?n - 1"] range [of ?n] by simp
  have current: "0.85 * currentSpeed weather
        \<le> currentSpeed weather * (1 + 0.15 * (2 * u (?n + 1) - 1)) \<and>
      currentSpeed weather * (1 + 0.15 * (2 * u (?n + 1) - 1)) \<le> 1.15 * currentSpeed weather"
    if "0 \<le> currentSpeed weather"
    using scaled_speed_bounds [OF that, of "0.15" "2 * u (?n + 1) - 1"] range [of "?n + 1"]
    by simp
  show ?thesis
    unfolding Let_def
    using step wind current range [of ?n] range [of "?n + 1"] range [of "?n + 2"]
      range [of "?n + 3"]
    by (simp only: hourPoint_claim_form) simp
qed

text \<open>
  With every random value one half, no quantity is perturbed: the second point of the first
  path is the drift of its first point under the base weather.
\<close>

theorem sampler_hour_step_witness:
  "(let r = runMonteCarloSimulation (\<lambda>n. 1 / 2) 13 80
     \<lparr>windSpeed = 20, windDirection = 180, waveHeight = 3 / 2,
      currentSpeed = 1 / 2, currentDirection = 200\<rparr> 3 50
    in driftPaths r ! 0 ! Suc 0 =
         calculateDrift (lat (driftPaths r ! 0 ! 0)) (lng (driftPaths r ! 0 ! 0))
           20 180 (1 / 2) 200 1)"
  using sampler_hour_step [of "\<lambda>n. 1 / 2" 0 50 0 3 13 80
     "\<lparr>windSpeed = 20, windDirection = 180, waveHeight = 3 / 2,
      currentSpeed = 1 / 2, currentDirection = 200\<rparr>"]
  by (simp add: Let_def)

text \<open>
  Claim C7. With wind speed 0 and current speed 0, \<open>calculateDrift\<close> returns the position it
  was given, for any directions and any duration; a speed of 0 perturbed by any percentage
  is 0 for every random value; and every point of every path of a run under such weather is
  the start position.
\<close>

theorem zero_velocity_identity:
  "calculateDrift la lo 0 thetaW 0 thetaC h = \<lparr>lat = la, lng = lo\<rparr> \<and>
   fst (randomVariation u 0 percentage n) = 0 \<and>
   (windSpeed weather = 0 \<and> currentSpeed weather = 0 \<longrightarrow>
      (\<forall>ps \<in> set (driftPaths (runMonteCarloSimulation u startLat startLng weather
                                 (real simulationHours) (real numPaths))).
         \<forall>q \<in> set ps. q = \<lparr>lat = startLat, lng = startLng\<rparr>))"
proof -
  let ?r = "runMonteCarloSimulation u startLat startLng weather (real simulationHours) (real numPaths)"
  have "q = \<lparr>lat = startLat, lng = startLng\<rparr>"
    if zero: "windSpeed weather = 0" "currentSpeed weather = 0"
      and ps: "ps \<in> set (driftPaths ?r)" and q: "q \<in> set ps" for ps q
  proof -
    from ps obtain i where "i < numPaths" and "ps = driftPaths ?r ! i"
      by (auto simp: in_set_conv_nth length_run_paths)
    then have "ps = startPoint startLat startLng #
                 replicate simulationHours (startPoint startLat startLng)"
      by (simp add: nth_run_paths walkFrom_still [OF zero])
    with q show ?thesis
      by (auto simp: startPoint_def)
  qed
  then show ?thesis
    by (simp add: calculateDrift_still randomVariation_def)
qed

text \<open>The scenario of the specification: 20 paths of 5 hours in still water.\<close>

theorem zero_velocity_identity_witness:
  "calculateDrift 13 80 0 180 0 200 5 = \<lparr>lat = 13, lng = 80\<rparr> \<and>
   list_all (list_all (\<lambda>q. q = \<lparr>lat = 13, lng = 80\<rparr>))
     (driftPaths (runMonteCarloSimulation (\<lambda>n. 1 / 4) 13 80
     \<lparr>windSpeed = 0, windDirection = 180, waveHeight = 3 / 2,
      currentSpeed = 0, currentDirection = 200\<rparr> 5 20))"
  using zero_velocity_identity [of 13 80 180 200 5 "\<lambda>n. 1 / 4" 20 0
     "\<lparr>windSpeed = 0, windDirection = 180, waveHeight = 3 / 2,
      currentSpeed = 0, currentDirection = 200\<rparr>" 13 80 5 20]
  by (simp add: list_all_iff)

subsection \<open>Heatmap\<close>

text \<open>
  Claim C3. For every run with at least one path and at least one hour, every heatmap point
  has an intensity above 0 and at most 1, and at least one has intensity exactly 1. The
  heatmap has one point for each entry of the occupancy map, in its order; the entry's
  count is the number of sampled points with its grid key, and the intensity is that count
  divided by the largest count, so the points of intensity 1 are those of the entries
  whose count is the largest.
\<close>

theorem heatmap_intensity_range:
  assumes "1 \<le> numPaths" and "1 \<le> simulationHours"
  shows
    "(let e = pathLoop u startLat startLng weather (real simulationHours) (real numPaths) 0
                \<lparr>paths = [], allPoints = [], pointCounts = [], randomCalls = 0\<rparr>;
          r = runMonteCarloSimulation u startLat startLng weather (real simulationHours) (real numPaths);
          counts = map snd (pointCounts e);
          maxCount = Max (set counts)
      in (\<forall>h \<in> set (heatmapPoints r). 0 < intensity h \<and> intensity h \<le> 1) \<and>
         (\<exists>h \<in> set (heatmapPoints r). intensity h = 1) \<and>
         length (heatmapPoints r) = length counts \<and>
         (\<forall>i < length counts.
            counts ! i =
              length (filter (\<lambda>q. gridKeyOf q = fst (pointCounts e ! i)) (allPoints e)) \<and>
            intensity (heatmapPoints r ! i) = real (counts ! i) / real maxCount \<and>
            (intensity (heatmapPoints r ! i) = 1 \<longleftrightarrow> counts ! i = maxCount)))"
proof -
  let ?ps = "sampledPoints u startLat startLng weather simulationHours numPaths"
  from assms have "0 < length ?ps" by (simp add: length_sampledPoints)
  then have "?ps \<noteq> []" by simp
  then have ne: "bumpAll ?ps [] \<noteq> []" by (simp add: bumpAll_not_Nil)
  have pos: "\<forall>c \<in> set (map snd (bumpAll ?ps [])). 0 < c"
    by (rule bumpAll_positive) simp
  have hm: "heatmapPoints (runMonteCarloSimulation u startLat startLng weather
                            (real simulationHours) (real numPaths))
      = map (heatmapPointOf (mathMax (map snd (bumpAll ?ps [])))) (bumpAll ?ps [])"
    by (simp only: run_heatmapPoints Let_def)
  show ?thesis
    unfolding Let_def engine_pointCounts engine_allPoints hm
    using heatmap_normalised [OF ne pos] heatmap_by_count [OF ne pos] occupancy_nth [of _ ?ps]
    by simp
qed

text \<open>The scenario of the specification: 50 paths of 3 hours off Chennai.\<close>

theorem heatmap_intensity_range_witness:
  "list_all (\<lambda>h. 0 < intensity h \<and> intensity h \<le> 1)
     (heatmapPoints (runMonteCarloSimulation (\<lambda>n. 1 / 4) 13.0827 80.2707
     \<lparr>windSpeed = 20, windDirection = 180, waveHeight = 3 / 2,
      currentSpeed = 1 / 2, currentDirection = 200\<rparr> 3 50)) \<and>
   (\<exists>h \<in> set (heatmapPoints (runMonteCarloSimulation (\<lambda>n. 1 / 4) 13.0827 80.2707
     \<lparr>windSpeed = 20, windDirection = 180, waveHeight = 3 / 2,
      currentSpeed = 1 / 2, currentDirection = 200\<rparr> 3 50)). intensity h = 1)"
  using heatmap_intensity_range [of 50 3 "\<lambda>n. 1 / 4" "13.0827" "80.2707"
     "\<lparr>windSpeed = 20, windDirection = 180, waveHeight = 3 / 2,
      currentSpeed = 1 / 2, currentDirection = 200\<rparr>"]
  by (simp add: Let_def list_all_iff)

subsection \<open>Predicted points\<close>

text \<open>
  Claim C4. The predicted points are computed from the pool of all paths' points after
  their first, path by path in the order of generation: with \<open>n\<close> the length of the pool
  divided by \<open>simulationHours\<close>, rounded down, the pool is cut into \<open>simulationHours\<close>
  chunks of \<open>n\<close> consecutive points, which together are the first \<open>simulationHours * n\<close>
  points of the pool (what is left at the end is dropped), and each chunk that is not empty
  gives one predicted point, the mean latitude and the mean longitude of its members.
\<close>

theorem predictedPoints_by_chunks:
  "(let r = runMonteCarloSimulation u startLat startLng weather (real simulationHours) (real numPaths);
        pool = concat (map tl (driftPaths r));
        n = length pool div simulationHours;
        chunks = map (chunk pool n) [0..<simulationHours]
    in predictedPoints r = map centroid (filter (\<lambda>c. c \<noteq> []) chunks) \<and>
       concat chunks = take (simulationHours * n) pool)"
  by (simp add: Let_def run_predictedPoints sampledPoints_pool [symmetric]
      calculateCentroidPoints_chunks chunkCentroids_def concat_chunks)

text \<open>
  In still water the pool of two paths of two hours is four times the start, cut into two
  chunks of two, whose means are the start.
\<close>

theorem predictedPoints_by_chunks_witness:
  "predictedPoints (runMonteCarloSimulation (\<lambda>n. 1 / 4) 13 80
     \<lparr>windSpeed = 0, windDirection = 180, waveHeight = 3 / 2,
      currentSpeed = 0, currentDirection = 200\<rparr> 2 2)
   = [\<lparr>lat = 13, lng = 80\<rparr>, \<lparr>lat = 13, lng = 80\<rparr>]"
  using predictedPoints_by_chunks [of "\<lambda>n. 1 / 4" 13 80
     "\<lparr>windSpeed = 0, windDirection = 180, waveHeight = 3 / 2,
      currentSpeed = 0, currentDirection = 200\<rparr>" 2 2]
  by (simp add: Let_def still_run_paths chunk_def centroid_def mean_def upt_conv_Cons)

text \<open>
  Claim C10. For every run with at least one path and at least one hour there are exactly
  \<open>simulationHours\<close> predicted points and no sample is dropped: the pool holds
  \<open>numPaths * simulationHours\<close> points, so the chunk length is \<open>numPaths\<close>, the chunks cover
  the whole pool, no chunk is empty, and predicted point \<open>h\<close> is the mean of the pool's
  members number \<open>h * numPaths\<close> to \<open>(h + 1) * numPaths - 1\<close>.
\<close>

theorem predictedPoints_full_chunks:
  assumes N: "1 \<le> numPaths" and H: "1 \<le> simulationHours"
  shows
    "(let r = runMonteCarloSimulation u startLat startLng weather (real simulationHours) (real numPaths);
          pool = concat (map tl (driftPaths r))
      in length (predictedPoints r) = simulationHours \<and>
         length pool = numPaths * simulationHours \<and>
         length pool div simulationHours = numPaths \<and>
         take (simulationHours * numPaths) pool = pool \<and>
         (\<forall>h < simulationHours.
            chunk pool numPaths h \<noteq> [] \<and>
            chunk pool numPaths h = map (\<lambda>i. pool ! i) [h * numPaths..<(h + 1) * numPaths] \<and>
            predictedPoints r ! h = centroid (chunk pool numPaths h)))"
proof -
  let ?r = "runMonteCarloSimulation u startLat startLng weather (real simulationHours) (real numPaths)"
  let ?pool = "sampledPoints u startLat startLng weather simulationHours numPaths"
  let ?chunks = "map (chunk ?pool numPaths) [0..<simulationHours]"
  have len: "length ?pool = numPaths * simulationHours"
    by (rule length_sampledPoints)
  with H have quot: "length ?pool div simulationHours = numPaths" by simp
  have fits: "(Suc h) * numPaths \<le> length ?pool" if "h < simulationHours" for h
  proof -
    from that have "Suc h \<le> simulationHours" by simp
    then have "Suc h * numPaths \<le> simulationHours * numPaths" by (rule mult_le_mono1)
    then show ?thesis by (simp add: len mult.commute)
  qed
  have full: "chunk ?pool numPaths h \<noteq> []" if "h < simulationHours" for h
    using length_chunk_full [OF fits [OF that]] N by auto
  then have keep: "filter (\<lambda>c. c \<noteq> []) ?chunks = ?chunks"
    by (simp add: filter_id_conv)
  have pred: "predictedPoints ?r = map centroid ?chunks"
    by (simp add: run_predictedPoints calculateCentroidPoints_chunks chunkCentroids_def
        quot keep Let_def del: map_map)
  have nth: "predictedPoints ?r ! h = centroid (chunk ?pool numPaths h)"
    if "h < simulationHours" for h
    using that by (simp add: pred)
  have "length (predictedPoints ?r) = simulationHours"
    by (simp add: pred)
  moreover have "take (simulationHours * numPaths) ?pool = ?pool"
    by (simp add: len mult.commute)
  ultimately show ?thesis
    unfolding Let_def sampledPoints_pool [symmetric]
    using len quot full nth chunk_nths [OF fits] by simp
qed

text \<open>
  Ten paths of three hours: three predicted points from a pool of thirty, the last the
  mean of the pool's members 20 to 29.
\<close>

theorem predictedPoints_full_chunks_witness:
  "(let r = runMonteCarloSimulation (\<lambda>n. 1 / 4) 13 80
     \<lparr>windSpeed = 20, windDirection = 180, waveHeight = 3 / 2,
      currentSpeed = 1 / 2, currentDirection = 200\<rparr> 3 10;
        pool = concat (map tl (driftPaths r))
    in length (predictedPoints r) = 3 \<and> length pool = 30 \<and>
       predictedPoints r ! 2 = centroid (chunk pool 10 2) \<and>
       chunk pool 10 2 = map (\<lambda>i. pool ! i) [20..<30])"
  using predictedPoints_full_chunks [of 10 3 "\<lambda>n. 1 / 4" 13 80
     "\<lparr>windSpeed = 20, windDirection = 180, waveHeight = 3 / 2,
      currentSpeed = 1 / 2, currentDirection = 200\<rparr>"]
  by (simp add: Let_def del: upt_rec_numeral)

subsection \<open>Degenerate runs\<close>

text \<open>
  Claim C6. A run with \<open>numPaths = 0\<close> or \<open>simulationHours = 0\<close> returns an empty heatmap
  and no predicted point, and no drift path when \<open>numPaths = 0\<close> (with \<open>simulationHours = 0\<close>
  every path is the start position alone). It divides by nothing that is zero: the two
  divisions by a quantity of the run are \<open>count / maxCount\<close>, made once for each entry of
  the occupancy map, and \<open>points.length / hours\<close>, made after the test that the pool is not
  empty, and here the map and the pool are both empty. The run is a total function with no
  error value, as the source has no statement that throws.
\<close>

theorem degenerate_run_empty:
  assumes "numPaths = 0 \<or> simulationHours = 0"
  shows
    "(let e = pathLoop u startLat startLng weather (real simulationHours) (real numPaths) 0
                \<lparr>paths = [], allPoints = [], pointCounts = [], randomCalls = 0\<rparr>;
          r = runMonteCarloSimulation u startLat startLng weather (real simulationHours) (real numPaths)
      in allPoints e = [] \<and> pointCounts e = [] \<and>
         heatmapPoints r = [] \<and> predictedPoints r = [] \<and>
         (numPaths = 0 \<longrightarrow> driftPaths r = []) \<and>
         (simulationHours = 0 \<longrightarrow>
            driftPaths r = replicate numPaths [\<lparr>lat = startLat, lng = startLng\<rparr>]))"
proof -
  have "length (sampledPoints u startLat startLng weather simulationHours numPaths) = 0"
    using assms by (auto simp: length_sampledPoints)
  then have none: "sampledPoints u startLat startLng weather simulationHours numPaths = []"
    by simp
  have still: "driftPaths (runMonteCarloSimulation u startLat startLng weather 0 (real numPaths)) =
      replicate numPaths [\<lparr>lat = startLat, lng = startLng\<rparr>]"
    using run_paths [of u startLat startLng weather 0 numPaths]
    by (simp add: walksFrom_def startPoint_def map_replicate_const)
  have "driftPaths (runMonteCarloSimulation u startLat startLng weather
                      (real simulationHours) 0) = []"
    using run_paths [of u startLat startLng weather simulationHours 0]
    by (simp add: walksFrom_0)
  with still show ?thesis
    by (auto simp: Let_def engine_allPoints engine_pointCounts none bumpAll_def
        run_heatmapPoints run_predictedPoints calculateCentroidPoints_def)
qed

text \<open>No path of three hours, and two paths of no hour.\<close>

theorem degenerate_run_empty_witness:
  "heatmapPoints (runMonteCarloSimulation (\<lambda>n. 1 / 4) 13 80
     \<lparr>windSpeed = 20, windDirection = 180, waveHeight = 3 / 2,
      currentSpeed = 1 / 2, currentDirection = 200\<rparr> 3 0) = [] \<and>
   predictedPoints (runMonteCarloSimulation (\<lambda>n. 1 / 4) 13 80
     \<lparr>windSpeed = 20, windDirection = 180, waveHeight = 3 / 2,
      currentSpeed = 1 / 2, currentDirection = 200\<rparr> 3 0) = [] \<and>
   driftPaths (runMonteCarloSimulation (\<lambda>n. 1 / 4) 13 80
     \<lparr>windSpeed = 20, windDirection = 180, waveHeight = 3 / 2,
      currentSpeed = 1 / 2, currentDirection = 200\<rparr> 3 0) = [] \<and>
   heatmapPoints (runMonteCarloSimulation (\<lambda>n. 1 / 4) 13 80
     \<lparr>windSpeed = 20, windDirection = 180, waveHeight = 3 / 2,
      currentSpeed = 1 / 2, currentDirection = 200\<rparr> 0 2) = [] \<and>
   predictedPoints (runMonteCarloSimulation (\<lambda>n. 1 / 4) 13 80
     \<lparr>windSpeed = 20, windDirection = 180, waveHeight = 3 / 2,
      currentSpeed = 1 / 2, currentDirection = 200\<rparr> 0 2) = [] \<and>
   driftPaths (runMonteCarloSimulation (\<lambda>n. 1 / 4) 13 80
     \<lparr>windSpeed = 20, windDirection = 180, waveHeight = 3 / 2,
      currentSpeed = 1 / 2, currentDirection = 200\<rparr> 0 2) =
     [[\<lparr>lat = 13, lng = 80\<rparr>], [\<lparr>lat = 13, lng = 80\<rparr>]]"
  using degenerate_run_empty [of 0 3 "\<lambda>n. 1 / 4" 13 80
     "\<lparr>windSpeed = 20, windDirection = 180, waveHeight = 3 / 2,
      currentSpeed = 1 / 2, currentDirection = 200\<rparr>"]
    degenerate_run_empty [of 2 0 "\<lambda>n. 1 / 4" 13 80
     "\<lparr>windSpeed = 20, windDirection = 180, waveHeight = 3 / 2,
      currentSpeed = 1 / 2, currentDirection = 200\<rparr>"]
  by (simp add: Let_def numeral_2_eq_2)

subsection \<open>Search radius\<close>

text \<open>
  Claim C5. \<open>generateSearchAreaRadius\<close> returns 5 for fewer than two heatmap cells; for two
  or more it returns the larger of the latitude span and the longitude span of the cells,
  times 111, halved, and clamped to 2 from below and 50 from above; the result always lies
  between 2 and 50.
\<close>

theorem generateSearchAreaRadius_spec:
  "(length hs < 2 \<longrightarrow> generateSearchAreaRadius hs = 5) \<and>
   (2 \<le> length hs \<longrightarrow>
      generateSearchAreaRadius hs =
        (let latSpan = Max (set (map lat hs)) - Min (set (map lat hs));
             lngSpan = Max (set (map lng hs)) - Min (set (map lng hs))
         in max 2 (min 50 ((max latSpan lngSpan * 111) / 2)))) \<and>
   2 \<le> generateSearchAreaRadius hs \<and> generateSearchAreaRadius hs \<le> 50"
proof (cases "length hs < 2")
  case True
  then show ?thesis by (simp add: generateSearchAreaRadius_def)
next
  case False
  then have "2 \<le> length hs" by simp
  from generateSearchAreaRadius_eq [OF this] False show ?thesis
    by (simp add: Let_def del: set_map)
qed

text \<open>
  No cell gives 5; two cells a tenth of a degree of latitude apart give 0.1 * 111 / 2.
\<close>

theorem generateSearchAreaRadius_spec_witness:
  "generateSearchAreaRadius [] = 5 \<and>
   generateSearchAreaRadius
     [\<lparr>lat = 13, lng = 80, intensity = 1\<rparr>, \<lparr>lat = 13.1, lng = 80.05, intensity = 1 / 2\<rparr>] = 5.55"
  using generateSearchAreaRadius_spec [of "[]"]
    generateSearchAreaRadius_spec
      [of "[\<lparr>lat = 13, lng = 80, intensity = 1\<rparr>, \<lparr>lat = 13.1, lng = 80.05, intensity = 1 / 2\<rparr>]"]
  by (simp add: Let_def)

end
